theory Spec2Isabelle
  imports Main
begin

section \<open>Textbook RSA arithmetic: the two modules of the repository\<close>

text \<open>
  The repository holds two copies of the same library:
  \<^item> \<^verbatim>\<open>src/crypto/asymmetric/rsa/rsa.py\<close>, modelled under the names of its functions
    (\<open>egcd\<close>, \<open>modinv\<close>, \<open>compute_n\<close>, ...);
  \<^item> \<^verbatim>\<open>src/crypto/rsa.py\<close>, whose RSA functions carry the prefix \<open>rsa_\<close> in the source
    and whose helpers (named as in the first module) carry the suffix \<open>_b\<close> here.

  Python's \<open>int\<close> is unbounded: HOL's \<open>int\<close>. Python's \<open>//\<close> and \<open>%\<close> round towards
  minus infinity and give the remainder the sign of the divisor, as \<open>div\<close> and \<open>mod\<close> on
  \<open>int\<close> do; both raise \<open>ZeroDivisionError\<close> on a zero divisor, which the model writes out
  wherever the divisor can be zero. \<open>math.gcd\<close> is the non-negative greatest common
  divisor, HOL's \<open>gcd\<close> on \<open>int\<close>.

  Every \<^verbatim>\<open>raise Exception(...)\<close> of the source is a branch returning \<open>Inl\<close>. The source
  raises the bare class \<open>Exception\<close> with a message; the constructors below name the
  raise sites by the error the message describes:
  \<^item> \<open>NotCoprime\<close>: "Modular inverse does not exist: ... not coprime to modulus";
  \<^item> \<open>InvalidInput\<close>: "Not enough factors", "Invalid modulus", "Invalid factor";
  \<^item> \<open>InvalidMethod\<close>: "Unknown method ... to compute phi(n)";
  \<^item> \<open>InvalidExponent\<close>: "Invalid exponent (should be strictly positive)";
  \<^item> \<open>EmptySequence\<close>: the \<open>StopIteration\<close> of \<open>next\<close> on an exhausted generator;
  \<^item> \<open>ZeroDivisionError\<close>, \<open>TypeError\<close>, \<open>ValueError\<close>, \<open>RecursionError\<close>: raised by the
    interpreter itself.

  The interpreter bounds the depth of its stack (\<open>sys.getrecursionlimit()\<close>, 1000 by
  default) and raises \<open>RecursionError\<close> in the call that would exceed it. \<open>egcd\<close> is the
  one recursive function of the library, with one frame for each step of Euclid's
  algorithm, so it takes a budget \<open>frames\<close>: the number of frames the interpreter can
  still stack when \<open>egcd\<close> is called, that is the recursion limit less the depth of the
  stack at that point. \<open>modinv\<close>, \<open>compute_d\<close> and \<open>decrypt\<close>, which reach \<open>egcd\<close> through a
  fixed chain of calls, hand the budget down unchanged. Every other call of the library
  nests to a fixed depth, at most two frames deeper than the first frame of \<open>egcd\<close>; a
  budget of three frames covers them, and the model does not count them.

  The flag \<open>log\<close> only switches calls of \<open>print\<close> on, and the model leaves the flag and the
  prints out. A \<open>print\<close> of an integer fails only where its decimal form is longer than
  the interpreter allows in a conversion to a string (4300 digits by default from
  CPython 3.11 on, no limit before); the round trip below is stated within that limit.
\<close>

datatype error =
    NotCoprime
  | InvalidInput
  | InvalidMethod
  | InvalidExponent
  | EmptySequence
  | ZeroDivisionError
  | TypeError
  | ValueError
  | RecursionError

definition PHI_EULER_TOTIENT :: string where
  "PHI_EULER_TOTIENT = ''euler''"

definition PHI_CARMICHAEL_TOTIENT :: string where
  "PHI_CARMICHAEL_TOTIENT = ''carmichael''"

text \<open>
  \<open>str.lower\<close> on the one-byte characters of a HOL string: the letters \<open>A\<close> to \<open>Z\<close> move to
  \<open>a\<close> to \<open>z\<close>; no other one-byte character lowers to an ASCII letter.
\<close>

definition lower_char :: "char \<Rightarrow> char" where
  "lower_char c =
     (if 65 \<le> (of_char c :: nat) \<and> (of_char c :: nat) \<le> 90
      then char_of ((of_char c :: nat) + 32) else c)"

definition lower :: "string \<Rightarrow> string" where
  "lower s = map lower_char s"

subsection \<open>Python's built-in three-argument \<open>pow\<close>\<close>

text \<open>
  \<open>pow(base, exp, mod)\<close> of Python 3.8 and later: a zero modulus raises \<open>ValueError\<close>; a
  non-negative exponent gives \<open>base ** exp % mod\<close>; a negative exponent replaces the base
  by its inverse modulo \<open>|mod|\<close> and raises \<open>ValueError\<close> when the base is not invertible.
  \<open>inv_mod a m\<close> searches the residues \<open>0 .. m - 1\<close> for the inverse (it is unique there).
\<close>

definition inv_mod :: "int \<Rightarrow> int \<Rightarrow> int" where
  "inv_mod a m = (case filter (\<lambda>x. (a * x) mod m = 1 mod m) [0 .. m - 1] of
                    [] \<Rightarrow> 0 | x # _ \<Rightarrow> x)"

definition pow_mod :: "int \<Rightarrow> int \<Rightarrow> int \<Rightarrow> error + int" where
  "pow_mod base ex md =
     (if md = 0 then Inl ValueError
      else if 0 \<le> ex then Inr (base ^ nat ex mod md)
      else if gcd base md \<noteq> 1 then Inl ValueError
      else Inr (inv_mod base \<bar>md\<bar> ^ nat (- ex) mod md))"

subsection \<open>Module \<^verbatim>\<open>src/crypto/asymmetric/rsa/rsa.py\<close>\<close>

fun egcd :: "nat \<Rightarrow> int \<Rightarrow> int \<Rightarrow> error + int \<times> int \<times> int" where
  "egcd 0 a b = Inl RecursionError"
| "egcd (Suc frames) a b =
     (if a = 0 then Inr (b, 0, 1)
      else (case egcd frames (b mod a) a of
              Inl err \<Rightarrow> Inl err
            | Inr (g, v, u) \<Rightarrow> Inr (g, u - (b div a) * v, v)))"

definition modinv :: "nat \<Rightarrow> int \<Rightarrow> int \<Rightarrow> error + int" where
  "modinv frames a m =
     (case egcd frames a m of
        Inl err \<Rightarrow> Inl err
      | Inr (g, u, _) \<Rightarrow>
          if g \<noteq> 1 then Inl NotCoprime
          else if m = 0 then Inl ZeroDivisionError
          else Inr (u mod m))"

definition lcm_int :: "int \<Rightarrow> int \<Rightarrow> error + int" where
  "lcm_int a b = (if gcd a b = 0 then Inl ZeroDivisionError else Inr (a * b div gcd a b))"

text \<open>
  \<open>foldl\<close> runs over the elements the iterable yields, here a list; the operation is any
  Python callable, so it may raise, and the loop stops at the first error.
\<close>

fun foldl_seq :: "('a \<Rightarrow> 'b \<Rightarrow> error + 'a) \<Rightarrow> 'a \<Rightarrow> 'b list \<Rightarrow> error + 'a" where
  "foldl_seq operation accumulator [] = Inr accumulator"
| "foldl_seq operation accumulator (elem # iterable) =
     (case operation accumulator elem of
        Inl err \<Rightarrow> Inl err
      | Inr accumulator' \<Rightarrow> foldl_seq operation accumulator' iterable)"

text \<open>
  \<open>foldl1\<close> takes a generator, given by the elements it still yields: \<open>next\<close> raises
  \<open>StopIteration\<close> when there is none.
\<close>

definition foldl1 :: "('a \<Rightarrow> 'a \<Rightarrow> error + 'a) \<Rightarrow> 'a list \<Rightarrow> error + 'a" where
  "foldl1 operation generator =
     (case generator of
        [] \<Rightarrow> Inl EmptySequence
      | first # rest \<Rightarrow> foldl_seq operation first rest)"

definition prod_seq :: "int list \<Rightarrow> error + int" where
  "prod_seq factors = foldl_seq (\<lambda>a b. Inr (a * b)) 1 factors"

definition compute_n :: "int list \<Rightarrow> error + int" where
  "compute_n factors =
     (if length factors < 1 then Inl InvalidInput
      else (case prod_seq factors of
              Inl err \<Rightarrow> Inl err
            | Inr n \<Rightarrow> if n < 1 then Inl InvalidInput else Inr n))"

definition compute_phi :: "int list \<Rightarrow> string \<Rightarrow> error + int" where
  "compute_phi factors method =
     (if lower method \<noteq> PHI_EULER_TOTIENT \<and> lower method \<noteq> PHI_CARMICHAEL_TOTIENT
      then Inl InvalidMethod
      else if length factors < 1 then Inl InvalidInput
      else if lower method = PHI_EULER_TOTIENT then prod_seq (map (\<lambda>x. x - 1) factors)
      else foldl1 lcm_int (map (\<lambda>x. x - 1) factors))"

text \<open>
  \<open>compute_d\<close> has the default \<open>factors = None\<close>, and \<open>*factors\<close> on \<open>None\<close> raises
  \<open>TypeError\<close>: the factor list is an option here.
\<close>

definition compute_d ::
  "nat \<Rightarrow> int \<Rightarrow> int \<Rightarrow> int list option \<Rightarrow> string \<Rightarrow> error + int" where
  "compute_d frames e phi factors phi_method =
     (case (if phi < 1
            then (case factors of
                    None \<Rightarrow> Inl TypeError
                  | Some fs \<Rightarrow> compute_phi fs phi_method)
            else Inr phi) of
        Inl err \<Rightarrow> Inl err
      | Inr phi' \<Rightarrow> if e < 1 then Inl InvalidExponent else modinv frames e phi')"

text \<open>
  \<open>decrypt\<close> calls \<open>compute_d(e=e, phi=phi, factors=factors, log=log)\<close>: its own
  \<open>phi_method\<close> is not among the arguments, so \<open>compute_d\<close> runs with its default
  \<open>PHI_EULER_TOTIENT\<close>.
\<close>

definition decrypt ::
  "nat \<Rightarrow> int \<Rightarrow> int \<Rightarrow> int \<Rightarrow> int \<Rightarrow> int list \<Rightarrow> int \<Rightarrow> string \<Rightarrow> error + int" where
  "decrypt frames ct d n e factors phi phi_method =
     (case (if n < 1 then compute_n factors else Inr n) of
        Inl err \<Rightarrow> Inl err
      | Inr n' \<Rightarrow>
          (case (if d < 1 then compute_d frames e phi (Some factors) PHI_EULER_TOTIENT
                 else Inr d) of
             Inl err \<Rightarrow> Inl err
           | Inr d' \<Rightarrow> pow_mod ct d' n'))"

definition encrypt :: "int \<Rightarrow> int \<Rightarrow> int \<Rightarrow> int list \<Rightarrow> error + int" where
  "encrypt pt e n factors =
     (case (if n < 1 then compute_n factors else Inr n) of
        Inl err \<Rightarrow> Inl err
      | Inr n' \<Rightarrow> pow_mod pt e n')"

subsection \<open>Module \<^verbatim>\<open>src/crypto/rsa.py\<close>\<close>

fun egcd_b :: "nat \<Rightarrow> int \<Rightarrow> int \<Rightarrow> error + int \<times> int \<times> int" where
  "egcd_b 0 a b = Inl RecursionError"
| "egcd_b (Suc frames) a b =
     (if a = 0 then Inr (b, 0, 1)
      else (case egcd_b frames (b mod a) a of
              Inl err \<Rightarrow> Inl err
            | Inr (g, y, x) \<Rightarrow> Inr (g, x - (b div a) * y, y)))"

definition modinv_b :: "nat \<Rightarrow> int \<Rightarrow> int \<Rightarrow> error + int" where
  "modinv_b frames a m =
     (case egcd_b frames a m of
        Inl err \<Rightarrow> Inl err
      | Inr (g, x, _) \<Rightarrow>
          if g \<noteq> 1 then Inl NotCoprime
          else if m = 0 then Inl ZeroDivisionError
          else Inr (x mod m))"

definition lcm_int_b :: "int \<Rightarrow> int \<Rightarrow> error + int" where
  "lcm_int_b a b = (if gcd a b = 0 then Inl ZeroDivisionError else Inr (a * b div gcd a b))"

fun foldl_seq_b :: "('a \<Rightarrow> 'b \<Rightarrow> error + 'a) \<Rightarrow> 'a \<Rightarrow> 'b list \<Rightarrow> error + 'a" where
  "foldl_seq_b operation accumulator [] = Inr accumulator"
| "foldl_seq_b operation accumulator (elem # iterable) =
     (case operation accumulator elem of
        Inl err \<Rightarrow> Inl err
      | Inr accumulator' \<Rightarrow> foldl_seq_b operation accumulator' iterable)"

text \<open>
  The body of this module's \<open>foldl1\<close> is the bare expression
  \<^verbatim>\<open>foldl(operation, next(generator), generator)\<close> with no \<^verbatim>\<open>return\<close>: the fold is
  evaluated, its errors propagate, and the caller receives Python's \<open>None\<close>, which is
  the \<open>None\<close> of the result type here.
\<close>

definition foldl1_b :: "('a \<Rightarrow> 'a \<Rightarrow> error + 'a) \<Rightarrow> 'a list \<Rightarrow> error + 'a option" where
  "foldl1_b operation generator =
     (case generator of
        [] \<Rightarrow> Inl EmptySequence
      | first # rest \<Rightarrow>
          (case foldl_seq_b operation first rest of
             Inl err \<Rightarrow> Inl err
           | Inr _ \<Rightarrow> Inr None))"

definition prod_seq_b :: "int list \<Rightarrow> error + int" where
  "prod_seq_b factors = foldl_seq_b (\<lambda>a b. Inr (a * b)) 1 factors"

definition rsa_compute_n :: "int list \<Rightarrow> error + int" where
  "rsa_compute_n factors =
     (if length factors < 1 \<or> list_ex (\<lambda>x. x < 1) factors then Inl InvalidInput
      else prod_seq_b factors)"

text \<open>
  \<open>rsa_compute_phi\<close> returns what \<open>foldl1\<close> returns on the Carmichael path, so its result
  is an integer or \<open>None\<close>.
\<close>

definition rsa_compute_phi :: "int list \<Rightarrow> string \<Rightarrow> error + int option" where
  "rsa_compute_phi factors method =
     (if lower method \<noteq> ''euler'' \<and> lower method \<noteq> ''carmichael'' then Inl InvalidMethod
      else if length factors < 1 \<or> list_ex (\<lambda>x. x < 1) factors then Inl InvalidInput
      else if lower method = ''euler''
      then (case prod_seq_b (map (\<lambda>x. x - 1) factors) of
              Inl err \<Rightarrow> Inl err
            | Inr p \<Rightarrow> Inr (Some p))
      else foldl1_b lcm_int_b (map (\<lambda>x. x - 1) factors))"

text \<open>
  When \<open>rsa_compute_phi\<close> has returned \<open>None\<close> and \<open>e\<close> is at least 1, \<open>modinv(e, None)\<close>
  calls \<open>egcd(e, None)\<close>, whose first step \<^verbatim>\<open>b % a\<close> is \<open>None % e\<close>: a \<open>TypeError\<close>,
  unless no frame is left for that call of \<open>egcd\<close>.
\<close>

definition rsa_compute_d ::
  "nat \<Rightarrow> int \<Rightarrow> int \<Rightarrow> int list option \<Rightarrow> string \<Rightarrow> error + int" where
  "rsa_compute_d frames e phi factors phi_method =
     (case (if phi < 1
            then (case factors of
                    None \<Rightarrow> Inl TypeError
                  | Some fs \<Rightarrow> rsa_compute_phi fs phi_method)
            else Inr (Some phi)) of
        Inl err \<Rightarrow> Inl err
      | Inr phi' \<Rightarrow>
          if e < 1 then Inl InvalidExponent
          else (case phi' of
                  None \<Rightarrow> if frames = 0 then Inl RecursionError else Inl TypeError
                | Some ph \<Rightarrow> modinv_b frames e ph))"

definition rsa_decrypt ::
  "nat \<Rightarrow> int \<Rightarrow> int \<Rightarrow> int \<Rightarrow> int \<Rightarrow> int list \<Rightarrow> int \<Rightarrow> string \<Rightarrow> error + int" where
  "rsa_decrypt frames ct d n e factors phi phi_method =
     (case (if n < 1 then rsa_compute_n factors else Inr n) of
        Inl err \<Rightarrow> Inl err
      | Inr n' \<Rightarrow>
          (case (if d < 1 then rsa_compute_d frames e phi (Some factors) PHI_EULER_TOTIENT
                 else Inr d) of
             Inl err \<Rightarrow> Inl err
           | Inr d' \<Rightarrow> pow_mod ct d' n'))"

definition rsa_encrypt :: "int \<Rightarrow> int \<Rightarrow> int \<Rightarrow> int list \<Rightarrow> error + int" where
  "rsa_encrypt pt e n factors =
     (case (if n < 1 then rsa_compute_n factors else Inr n) of
        Inl err \<Rightarrow> Inl err
      | Inr n' \<Rightarrow> pow_mod pt e n')"

subsection \<open>Vocabulary of the properties\<close>



text \<open>
  The recursion of \<open>egcd\<close> with no budget: \<open>egcd_frames a b\<close> is the number of frames the
  call \<open>egcd(a, b)\<close> stacks, its own included, and \<open>egcd_value a b\<close> the triple it returns
  when none of them is refused. Both are total: \<open>|a|\<close> decreases from each call to the
  next.
\<close>

function egcd_frames :: "int \<Rightarrow> int \<Rightarrow> nat" where
  "egcd_frames a b = (if a = 0 then 1 else Suc (egcd_frames (b mod a) a))"
  by pat_completeness auto
termination
  by (relation "measure (\<lambda>(a, b). nat \<bar>a\<bar>)") (auto simp: abs_mod_less)

function egcd_value :: "int \<Rightarrow> int \<Rightarrow> int \<times> int \<times> int" where
  "egcd_value a b =
     (if a = 0 then (b, 0, 1)
      else (case egcd_value (b mod a) a of (g, v, u) \<Rightarrow> (g, u - (b div a) * v, v)))"
  by pat_completeness auto
termination
  by (relation "measure (\<lambda>(a, b). nat \<bar>a\<bar>)") (auto simp: abs_mod_less)



declare egcd_frames.simps [simp del]

declare egcd_value.simps [simp del]

section \<open>The extended Euclidean algorithm\<close>




text \<open>
  The number of frames is at least one and at most \<open>|a| + 1\<close>, and the budget decides
  between the triple and the \<open>RecursionError\<close>.
\<close>

lemma egcd_frames_pos: "0 < egcd_frames a b"
  by (subst egcd_frames.simps) simp


lemma egcd_run:
  "egcd frames a b =
     (if egcd_frames a b \<le> frames then Inr (egcd_value a b) else Inl RecursionError)"
proof (induction frames arbitrary: a b)
  case 0
  then show ?case using egcd_frames_pos[of a b] by simp
next
  case (Suc frames)
  show ?case
  proof (cases "a = 0")
    case True
    then show ?thesis by (simp add: egcd_frames.simps egcd_value.simps)
  next
    case False
    have f: "egcd_frames a b = Suc (egcd_frames (b mod a) a)"
      using False by (subst egcd_frames.simps) simp
    have v: "egcd_value a b =
        (case egcd_value (b mod a) a of (g, v, u) \<Rightarrow> (g, u - (b div a) * v, v))"
      using False by (subst egcd_value.simps) simp
    show ?thesis
      using False by (simp add: Suc.IH f v split: prod.splits)
  qed
qed










text \<open>
  Claim C3. \<open>egcd(a, b)\<close> is documented to return \<open>gcd(a, b)\<close> with its Bezout
  coefficients. On a negative first argument the first component is the negated greatest
  common divisor: \<open>egcd(-1, 5)\<close> is \<open>(-1, 1, 0)\<close> while \<open>gcd(-1, 5)\<close> is 1, and
  \<open>egcd(0, -5)\<close> is \<open>(-5, 0, 1)\<close> while \<open>gcd(0, -5)\<close> is 5. The two calls stack two
  frames and one frame, and return these triples under every budget that allows them.
\<close>

theorem egcd_negative_gcd:
  "egcd (k + 2) (- 1) 5 = Inr (- 1, 1, 0) \<and> gcd (- 1 :: int) 5 = 1 \<and>
   egcd (k + 1) 0 (- 5) = Inr (- 5, 0, 1) \<and> gcd (0 :: int) (- 5) = 5"
proof -
  have "egcd_frames (- 1) 5 = 2" "egcd_frames 0 (- 5) = 1"
    "egcd_value (- 1) 5 = (- 1, 1, 0)" "egcd_value 0 (- 5) = (- 5, 0, 1)"
    by code_simp+
  then show ?thesis by (simp add: egcd_run)
qed

section \<open>The modular inverse\<close>

lemma modinv_run:
  "modinv frames a m =
     (if egcd_frames a m \<le> frames
      then (case egcd_value a m of (g, u, _) \<Rightarrow>
              if g \<noteq> 1 then Inl NotCoprime
              else if m = 0 then Inl ZeroDivisionError
              else Inr (u mod m))
      else Inl RecursionError)"
  by (simp add: modinv_def egcd_run split: prod.splits)








text \<open>
  The kernels of the two modules are the same functions.
\<close>

lemma egcd_b_eq: "egcd_b frames a b = egcd frames a b"
  by (induction frames arbitrary: a b) simp_all

lemma modinv_b_eq: "modinv_b frames a m = modinv frames a m"
  by (simp add: modinv_b_def modinv_def egcd_b_eq)

text \<open>
  A budget that covers the frames of \<open>egcd\<close> gives what the exact budget gives.
\<close>

lemma modinv_enough:
  "egcd_frames a m \<le> frames \<Longrightarrow> modinv frames a m = modinv (egcd_frames a m) a m"
  by (simp add: modinv_run)

section \<open>Folds\<close>

lemma foldl1_nonempty: "foldl1 operation (first # rest) = foldl_seq operation first rest"
  by (simp add: foldl1_def)

lemma foldl1_empty: "foldl1 operation [] = Inl EmptySequence"
  by (simp add: foldl1_def)

lemma foldl1_b_empty: "foldl1_b operation [] = Inl EmptySequence"
  by (simp add: foldl1_b_def)

lemma foldl1_b_never_value: "foldl1_b operation generator \<noteq> Inr (Some v)"
  by (simp add: foldl1_b_def split: list.splits sum.splits)

text \<open>
  Claim C5. \<open>foldl1(op, sequence)\<close> is to return what
  \<open>foldl(op, first_element, remaining_elements)\<close> returns, and to fail with
  \<open>EmptySequence\<close> on a sequence that yields nothing. The \<open>foldl1\<close> of
  \<^verbatim>\<open>src/crypto/asymmetric/rsa/rsa.py\<close> does both (\<open>foldl1_nonempty\<close>, \<open>foldl1_empty\<close>). The
  \<open>foldl1\<close> of \<^verbatim>\<open>src/crypto/rsa.py\<close> fails on the empty sequence as claimed, but on
  \<open>[1, 2, 3]\<close> with addition it returns \<open>None\<close> where the fold is 6.
\<close>

theorem foldl1_b_returns_None:
  "foldl1_b (\<lambda>a b. Inr (a + b)) [1, 2, 3 :: int] = Inr None \<and>
   foldl_seq_b (\<lambda>a b. Inr (a + b)) (1 :: int) [2, 3 :: int] = Inr 6 \<and>
   foldl1 (\<lambda>a b. Inr (a + b)) [1, 2, 3 :: int] = Inr 6"
  by (simp add: foldl1_b_def foldl1_def)

section \<open>The totient\<close>

lemma compute_phi_carmichael:
  "factors \<noteq> [] \<Longrightarrow> lower method = ''carmichael'' \<Longrightarrow>
     compute_phi factors method = foldl1 lcm_int (map (\<lambda>x. x - 1) factors)"
  by (cases factors) (simp_all add: compute_phi_def PHI_EULER_TOTIENT_def PHI_CARMICHAEL_TOTIENT_def)

text \<open>
  On factors that are all at least 2 the terms \<open>factor - 1\<close> are positive, no division
  by zero occurs, and the fold of \<open>lcm\<close> is their least common multiple.
\<close>

lemma lcm_int_pos: "0 < a \<Longrightarrow> 0 < b \<Longrightarrow> lcm_int a b = Inr (lcm a b)"
proof -
  assume a: "0 < a" and b: "0 < b"
  then have g: "0 < gcd a b" by (simp add: gcd_pos_int)
  have "0 \<le> a * b div gcd a b"
    using a b g by (simp add: pos_imp_zdiv_nonneg_iff)
  then have "lcm a b = a * b div gcd a b"
    by (simp add: lcm_gcd)
  with g show ?thesis by (simp add: lcm_int_def)
qed

lemma foldl_seq_lcm:
  "0 < acc \<Longrightarrow> list_all (\<lambda>x. 0 < x) xs \<Longrightarrow>
     foldl_seq lcm_int acc xs = Inr (Lcm (set (acc # xs)))"
proof (induction xs arbitrary: acc)
  case Nil
  then show ?case by simp
next
  case (Cons x xs)
  then have x: "0 < x" and xs: "list_all (\<lambda>x. 0 < x) xs" by simp_all
  have l: "0 < lcm acc x" using Cons.prems(1) x by (simp add: lcm_pos_int)
  have "foldl_seq lcm_int acc (x # xs) = foldl_seq lcm_int (lcm acc x) xs"
    using Cons.prems(1) x by (simp add: lcm_int_pos)
  also have "\<dots> = Inr (Lcm (set (lcm acc x # xs)))" using l xs by (rule Cons.IH)
  also have "Lcm (set (lcm acc x # xs)) = Lcm (set (acc # x # xs))"
    by (simp add: lcm.assoc)
  finally show ?case .
qed

lemma compute_phi_carmichael_Lcm:
  assumes "list_all (\<lambda>x. 2 \<le> x) factors" and "factors \<noteq> []"
    and "lower method = ''carmichael''"
  shows "compute_phi factors method = Inr (Lcm ((\<lambda>x. x - 1) ` set factors))"
proof -
  from assms(2) obtain f fs where fs: "factors = f # fs" by (cases factors) auto
  with assms(1) have f: "0 < f - 1" and r: "list_all (\<lambda>x. 0 < x) (map (\<lambda>x. x - 1) fs)"
    by (auto simp: list_all_iff)
  have "compute_phi factors method = foldl_seq lcm_int (f - 1) (map (\<lambda>x. x - 1) fs)"
    using assms(3) fs
    by (simp add: compute_phi_def PHI_EULER_TOTIENT_def PHI_CARMICHAEL_TOTIENT_def foldl1_def)
  also have "\<dots> = Inr (Lcm (set ((f - 1) # map (\<lambda>x. x - 1) fs)))"
    using f r by (rule foldl_seq_lcm)
  finally show ?thesis by (simp add: fs)
qed

text \<open>
  Claim C4. With the Carmichael method the totient is to be the fold of \<open>lcm\<close> over the
  terms \<open>factor - 1\<close>: 780 for the factors 61 and 53, where the Euler method gives 3120.
  \<open>compute_phi\<close> returns that fold (\<open>compute_phi_carmichael\<close>,
  \<open>compute_phi_carmichael_Lcm\<close>) and gives 780 and 3120.
  \<open>rsa_compute_phi\<close> of \<^verbatim>\<open>src/crypto/rsa.py\<close> gives 3120 with the Euler method and \<open>None\<close>
  with the Carmichael method.
\<close>

theorem rsa_compute_phi_carmichael_None:
  "rsa_compute_phi [61, 53] ''carmichael'' = Inr None \<and>
   compute_phi [61, 53] ''carmichael'' = Inr 780 \<and>
   lcm_int 60 52 = Inr 780 \<and>
   compute_phi [61, 53] ''euler'' = Inr 3120 \<and>
   rsa_compute_phi [61, 53] ''euler'' = Inr (Some 3120)"
  by code_simp

section \<open>The private exponent\<close>

text \<open>
  Claim C8, as the code has it. A call of \<open>compute_d\<close> (and of \<open>rsa_compute_d\<close>) with
  \<open>e < 1\<close> always fails. It fails with \<open>InvalidExponent\<close> when \<open>phi\<close> is supplied
  (\<open>phi \<ge> 1\<close>), and when \<open>phi\<close> is derived from the factor list and that derivation
  succeeds. The totient is derived before \<open>e\<close> is tested: when the derivation fails, its
  error is the one raised. The budget of frames plays no part: \<open>modinv\<close> is not reached.
\<close>

theorem compute_d_nonpositive_exponent:
  assumes "e < 1"
  shows "(1 \<le> phi \<longrightarrow> compute_d frames e phi factors phi_method = Inl InvalidExponent) \<and>
         (phi < 1 \<and> compute_phi fs phi_method = Inr p \<longrightarrow>
            compute_d frames e phi (Some fs) phi_method = Inl InvalidExponent) \<and>
         (phi < 1 \<and> compute_phi fs phi_method = Inl err \<longrightarrow>
            compute_d frames e phi (Some fs) phi_method = Inl err) \<and>
         (\<exists>err'. compute_d frames e phi factors phi_method = Inl err') \<and>
         (1 \<le> phi \<longrightarrow> rsa_compute_d frames e phi factors phi_method = Inl InvalidExponent) \<and>
         (phi < 1 \<and> rsa_compute_phi fs phi_method = Inr q \<longrightarrow>
            rsa_compute_d frames e phi (Some fs) phi_method = Inl InvalidExponent) \<and>
         (phi < 1 \<and> rsa_compute_phi fs phi_method = Inl err \<longrightarrow>
            rsa_compute_d frames e phi (Some fs) phi_method = Inl err) \<and>
         (\<exists>err'. rsa_compute_d frames e phi factors phi_method = Inl err')"
  using assms
  by (auto simp: compute_d_def rsa_compute_d_def split: option.splits sum.splits)

text \<open>
  At \<open>e = 0\<close> and 1000 frames: with \<open>phi = 3120\<close>; with the factors 61 and 53; with no
  factor at all.
\<close>

theorem compute_d_nonpositive_exponent_witness:
  "compute_d 1000 0 3120 None ''euler'' = Inl InvalidExponent \<and>
   compute_d 1000 0 (- 1) (Some [61, 53]) ''euler'' = Inl InvalidExponent \<and>
   compute_d 1000 0 (- 1) (Some []) ''euler'' = Inl InvalidInput \<and>
   rsa_compute_d 1000 0 3120 None ''euler'' = Inl InvalidExponent \<and>
   rsa_compute_d 1000 0 (- 1) (Some [61, 53]) ''carmichael'' = Inl InvalidExponent \<and>
   rsa_compute_d 1000 0 (- 1) (Some []) ''euler'' = Inl InvalidInput"
proof -
  have a: "compute_phi [61, 53] ''euler'' = Inr 3120"
    and b: "compute_phi [] ''euler'' = Inl InvalidInput"
    and c: "rsa_compute_phi [61, 53] ''carmichael'' = Inr None"
    and d: "rsa_compute_phi [] ''euler'' = Inl InvalidInput"
    by code_simp+
  have e: "(0::int) < 1" by simp
  show ?thesis
    using compute_d_nonpositive_exponent[OF e, where frames = 1000 and phi = 3120 and factors = None
        and phi_method = "''euler''"]
      compute_d_nonpositive_exponent[OF e, where frames = 1000 and phi = "- 1" and fs = "[61, 53]"
        and phi_method = "''euler''" and p = 3120]
      compute_d_nonpositive_exponent[OF e, where frames = 1000 and phi = "- 1" and fs = "[]"
        and phi_method = "''euler''" and err = InvalidInput]
      compute_d_nonpositive_exponent[OF e, where frames = 1000 and phi = "- 1" and fs = "[61, 53]"
        and phi_method = "''carmichael''" and q = None]
      a b c d
    by simp
qed

text \<open>
  The claim as stated fails where the totient cannot be derived: with \<open>e = 0\<close> and an
  empty factor list the error is \<open>InvalidInput\<close>, with an unknown method
  \<open>InvalidMethod\<close>, and with the default \<open>factors = None\<close> a \<open>TypeError\<close>.
\<close>

theorem compute_d_counterexample:
  "compute_d 1000 0 (- 1) (Some []) ''euler'' = Inl InvalidInput \<and>
   compute_d 1000 0 (- 1) (Some [61, 53]) ''rsa'' = Inl InvalidMethod \<and>
   compute_d 1000 0 (- 1) None ''euler'' = Inl TypeError"
  by code_simp

section \<open>Decryption\<close>

text \<open>
  Claim C10. When \<open>d \<ge> 1\<close> and \<open>n \<ge> 1\<close> are supplied, \<open>decrypt\<close> returns
  \<open>ct ^ d mod n\<close> and reads none of \<open>e\<close>, \<open>factors\<close>, \<open>phi\<close> and \<open>phi_method\<close>: two calls
  with the same \<open>ct\<close>, \<open>d\<close> and \<open>n\<close> return the same value whatever the other arguments
  are, and whatever the budget of frames is. The same holds of \<open>rsa_decrypt\<close>.
\<close>

theorem decrypt_direct:
  assumes "1 \<le> d" and "1 \<le> n"
  shows "decrypt frames ct d n e factors phi phi_method = Inr (ct ^ nat d mod n) \<and>
         decrypt frames ct d n e factors phi phi_method =
           decrypt frames' ct d n e' factors' phi' phi_method' \<and>
         rsa_decrypt frames ct d n e factors phi phi_method = Inr (ct ^ nat d mod n) \<and>
         rsa_decrypt frames ct d n e factors phi phi_method =
           rsa_decrypt frames' ct d n e' factors' phi' phi_method'"
  using assms by (simp add: decrypt_def rsa_decrypt_def pow_mod_def)

text \<open>
  At \<open>ct = 4\<close>, \<open>d = 3\<close>, \<open>n = 33\<close>, with two different settings of the other arguments
  and of the budget.
\<close>

theorem decrypt_direct_witness:
  "decrypt 1000 4 3 33 0 [] 0 ''x'' = Inr 31 \<and>
   decrypt 0 4 3 33 7 [2, 2] 5 ''euler'' = Inr 31 \<and>
   rsa_decrypt 1000 4 3 33 0 [] 0 ''x'' = Inr 31 \<and>
   rsa_decrypt 0 4 3 33 7 [2, 2] 5 ''euler'' = Inr 31"
proof -
  have d: "(1::int) \<le> 3" and n: "(1::int) \<le> 33" by simp_all
  show ?thesis
    using decrypt_direct[OF d n, of 1000 4 0 "[]" 0 "''x''"]
      decrypt_direct[OF d n, of 0 4 7 "[2, 2]" 5 "''euler''"] by simp
qed

text \<open>
  Claim C7. \<open>decrypt\<close> is to derive \<open>d\<close> through \<open>compute_phi\<close> with the \<open>phi_method\<close> it
  was given. It does not pass \<open>phi_method\<close> on: every call behaves as the call with the
  Euler method. For \<open>e = 17\<close> and the factors 61 and 53 the Carmichael exponent is 413 and
  the Euler exponent 2753, and \<open>decrypt\<close> uses the latter; with a method name that
  \<open>compute_d\<close> rejects, \<open>decrypt\<close> still returns a plaintext. The values are those of every
  budget of at least five frames, which the calls of \<open>egcd\<close> involved need.
\<close>

theorem decrypt_ignores_phi_method:
  "decrypt frames ct d n e factors phi phi_method =
     decrypt frames ct d n e factors phi PHI_EULER_TOTIENT \<and>
   rsa_decrypt frames ct d n e factors phi phi_method =
     rsa_decrypt frames ct d n e factors phi PHI_EULER_TOTIENT \<and>
   compute_d (k + 5) 17 (- 1) (Some [61, 53]) ''carmichael'' = Inr 413 \<and>
   compute_d (k + 5) 17 (- 1) (Some [61, 53]) ''euler'' = Inr 2753 \<and>
   decrypt (k + 5) 2 (- 1) (- 1) 13 [3, 11] (- 1) ''no such method'' = Inr 29 \<and>
   rsa_decrypt (k + 5) 2 (- 1) (- 1) 13 [3, 11] (- 1) ''no such method'' = Inr 29 \<and>
   compute_d frames 13 (- 1) (Some [3, 11]) ''no such method'' = Inl InvalidMethod"
proof -
  have f: "egcd_frames 17 780 = 5" "egcd_frames 17 3120 = 5" "egcd_frames 13 20 = 5"
    by code_simp+
  have "modinv 5 17 780 = Inr 413" "modinv 5 17 3120 = Inr 2753" "modinv 5 13 20 = Inr 17"
    by code_simp+
  then have mi: "modinv (k + 5) 17 780 = Inr 413" "modinv (k + 5) 17 3120 = Inr 2753"
    "modinv (k + 5) 13 20 = Inr 17"
    using modinv_enough[of 17 780 "k + 5"] modinv_enough[of 17 3120 "k + 5"]
      modinv_enough[of 13 20 "k + 5"]
    by (simp_all add: f)
  have phi: "compute_phi [61, 53] ''carmichael'' = Inr 780"
    "compute_phi [61, 53] ''euler'' = Inr 3120"
    "compute_phi [3, 11] PHI_EULER_TOTIENT = Inr 20"
    "rsa_compute_phi [3, 11] PHI_EULER_TOTIENT = Inr (Some 20)"
    "compute_phi [3, 11] ''no such method'' = Inl InvalidMethod"
    and n: "compute_n [3, 11] = Inr 33" "rsa_compute_n [3, 11] = Inr 33"
    and p: "pow_mod 2 17 33 = Inr 29"
    by code_simp+
  have "decrypt frames ct d n e factors phi phi_method =
      decrypt frames ct d n e factors phi PHI_EULER_TOTIENT"
    by (simp add: decrypt_def)
  moreover have "rsa_decrypt frames ct d n e factors phi phi_method =
      rsa_decrypt frames ct d n e factors phi PHI_EULER_TOTIENT"
    by (simp add: rsa_decrypt_def)
  moreover have "compute_d (k + 5) 17 (- 1) (Some [61, 53]) ''carmichael'' = Inr 413"
    "compute_d (k + 5) 17 (- 1) (Some [61, 53]) ''euler'' = Inr 2753"
    by (simp_all add: compute_d_def phi mi)
  moreover have "decrypt (k + 5) 2 (- 1) (- 1) 13 [3, 11] (- 1) ''no such method'' = Inr 29"
    by (simp add: decrypt_def compute_d_def phi n mi p)
  moreover have "rsa_decrypt (k + 5) 2 (- 1) (- 1) 13 [3, 11] (- 1) ''no such method'' = Inr 29"
    by (simp add: rsa_decrypt_def rsa_compute_d_def phi n mi p modinv_b_eq)
  moreover have "compute_d frames 13 (- 1) (Some [3, 11]) ''no such method'' = Inl InvalidMethod"
    by (simp add: compute_d_def phi)
  ultimately show ?thesis by blast
qed

section \<open>Products\<close>

lemma foldl_seq_mult: "foldl_seq (\<lambda>a b. Inr (a * b)) acc xs = Inr (acc * prod_list xs)"
  by (induction xs arbitrary: acc) (simp_all add: mult.assoc)

lemma prod_seq_eq: "prod_seq factors = Inr (prod_list factors)"
  by (simp add: prod_seq_def foldl_seq_mult)

lemma prod_list_ge_1: "list_all (\<lambda>x. 1 \<le> x) xs \<Longrightarrow> (1::int) \<le> prod_list xs"
proof (induction xs)
  case Nil
  then show ?case by simp
next
  case (Cons x xs)
  then have "1 \<le> x" "1 \<le> prod_list xs" by simp_all
  then have "1 * 1 \<le> x * prod_list xs" by (intro mult_mono) simp_all
  then show ?case by simp
qed

lemma list_ex_less_1: "list_all (\<lambda>x. 1 \<le> x) xs \<Longrightarrow> \<not> list_ex (\<lambda>x. x < (1::int)) xs"
  by (induction xs) auto

section \<open>The two modules side by side\<close>

lemma lcm_int_b_eq: "lcm_int_b a b = lcm_int a b"
  by (simp add: lcm_int_b_def lcm_int_def)

lemma foldl_seq_b_eq: "foldl_seq_b operation accumulator iterable = foldl_seq operation accumulator iterable"
  by (induction iterable arbitrary: accumulator) (simp_all split: sum.splits)

lemma prod_seq_b_eq: "prod_seq_b factors = prod_seq factors"
  by (simp add: prod_seq_b_def prod_seq_def foldl_seq_b_eq)

lemma rsa_compute_n_eq:
  "list_all (\<lambda>x. 1 \<le> x) factors \<Longrightarrow> rsa_compute_n factors = compute_n factors"
  using prod_list_ge_1[of factors]
  by (simp add: rsa_compute_n_def compute_n_def prod_seq_b_eq prod_seq_eq list_ex_less_1)

lemma rsa_compute_phi_eq:
  "list_all (\<lambda>x. 1 \<le> x) factors \<Longrightarrow> lower method \<noteq> ''carmichael'' \<Longrightarrow>
     rsa_compute_phi factors method = map_sum id Some (compute_phi factors method)"
  by (simp add: rsa_compute_phi_def compute_phi_def prod_seq_b_eq prod_seq_eq list_ex_less_1
      PHI_EULER_TOTIENT_def PHI_CARMICHAEL_TOTIENT_def)

lemma rsa_compute_d_eq:
  "list_all (\<lambda>x. 1 \<le> x) fs \<Longrightarrow> lower phi_method \<noteq> ''carmichael'' \<Longrightarrow>
     rsa_compute_d frames e phi (Some fs) phi_method = compute_d frames e phi (Some fs) phi_method"
  by (cases "compute_phi fs phi_method")
    (simp_all add: rsa_compute_d_def compute_d_def rsa_compute_phi_eq modinv_b_eq)

lemma rsa_compute_d_None_eq:
  "rsa_compute_d frames e phi None phi_method = compute_d frames e phi None phi_method"
  by (simp add: rsa_compute_d_def compute_d_def modinv_b_eq)

lemma lower_euler: "lower PHI_EULER_TOTIENT \<noteq> ''carmichael''"
  by (simp add: PHI_EULER_TOTIENT_def lower_def lower_char_def)

lemma rsa_encrypt_eq:
  "list_all (\<lambda>x. 1 \<le> x) factors \<Longrightarrow> rsa_encrypt pt e n factors = encrypt pt e n factors"
  by (simp add: rsa_encrypt_def encrypt_def rsa_compute_n_eq)

lemma rsa_decrypt_eq:
  "list_all (\<lambda>x. 1 \<le> x) factors \<Longrightarrow>
     rsa_decrypt frames ct d n e factors phi phi_method = decrypt frames ct d n e factors phi phi_method"
  by (simp add: rsa_decrypt_def decrypt_def rsa_compute_n_eq rsa_compute_d_eq lower_euler
      cong: sum.case_cong)

text \<open>
  Claim C6, as the code has it. The two modules agree on \<open>egcd\<close>, \<open>modinv\<close>, \<open>lcm\<close>,
  \<open>foldl\<close> and \<open>prod\<close> on every input and under every budget of frames, and on
  \<open>compute_d\<close> when no factor list is given.
  \<open>rsa_compute_n\<close>, \<open>rsa_encrypt\<close> and \<open>rsa_decrypt\<close> return the same value, or fail with
  the same error, as \<open>compute_n\<close>, \<open>encrypt\<close> and \<open>decrypt\<close> whenever every factor is at
  least 1; \<open>rsa_compute_phi\<close> and \<open>rsa_compute_d\<close> do so whenever, in addition, the method
  is not the Carmichael one.
\<close>

theorem modules_agree:
  "egcd_b frames a b = egcd frames a b \<and>
   modinv_b frames a m = modinv frames a m \<and>
   lcm_int_b a b = lcm_int a b \<and>
   foldl_seq_b operation accumulator iterable = foldl_seq operation accumulator iterable \<and>
   prod_seq_b factors = prod_seq factors \<and>
   rsa_compute_d frames e phi None phi_method = compute_d frames e phi None phi_method \<and>
   (list_all (\<lambda>x. 1 \<le> x) factors \<longrightarrow>
      rsa_compute_n factors = compute_n factors \<and>
      rsa_encrypt pt e n factors = encrypt pt e n factors \<and>
      rsa_decrypt frames ct d n e factors phi phi_method = decrypt frames ct d n e factors phi phi_method) \<and>
   (list_all (\<lambda>x. 1 \<le> x) factors \<and> lower phi_method \<noteq> ''carmichael'' \<longrightarrow>
      rsa_compute_phi factors phi_method = map_sum id Some (compute_phi factors phi_method) \<and>
      rsa_compute_d frames e phi (Some factors) phi_method = compute_d frames e phi (Some factors) phi_method)"
  by (simp add: egcd_b_eq modinv_b_eq lcm_int_b_eq foldl_seq_b_eq prod_seq_b_eq
      rsa_compute_d_None_eq rsa_compute_n_eq rsa_encrypt_eq rsa_decrypt_eq rsa_compute_phi_eq
      rsa_compute_d_eq)

text \<open>
  At the factors 61 and 53 with \<open>e = 17\<close>, the Euler method and 1000 frames.
\<close>

theorem modules_agree_witness:
  "rsa_compute_n [61, 53] = compute_n [61, 53] \<and>
   rsa_encrypt 65 17 (- 1) [61, 53] = encrypt 65 17 (- 1) [61, 53] \<and>
   rsa_decrypt 1000 2790 (- 1) (- 1) 17 [61, 53] (- 1) ''euler'' =
     decrypt 1000 2790 (- 1) (- 1) 17 [61, 53] (- 1) ''euler'' \<and>
   rsa_compute_phi [61, 53] ''euler'' = map_sum id Some (compute_phi [61, 53] ''euler'') \<and>
   rsa_compute_d 1000 17 (- 1) (Some [61, 53]) ''euler'' =
     compute_d 1000 17 (- 1) (Some [61, 53]) ''euler''"
proof -
  have f: "list_all (\<lambda>x. 1 \<le> x) [61, 53 :: int]" by simp
  have l: "lower ''euler'' \<noteq> ''carmichael''" by (simp add: lower_def lower_char_def)
  show ?thesis
    using modules_agree[where frames = 1000 and factors = "[61, 53]" and phi_method = "''euler''" and pt = 65
        and e = 17 and n = "- 1" and ct = 2790 and d = "- 1" and phi = "- 1"
        and a = 17 and b = 3120 and m = 3120 and operation = "\<lambda>(x::int) (y::int). Inr (x * y)"
        and accumulator = 1 and iterable = "[61, 53]"] f l
    by simp
qed

text \<open>
  The claim as stated fails where a factor is below 1: \<open>compute_n(-1, -1)\<close> is 1 (only the
  product is tested) while \<open>rsa_compute_n(-1, -1)\<close> rejects the factors, and
  \<open>compute_phi(3, 0)\<close> is \<open>-2\<close> while \<open>rsa_compute_phi(3, 0)\<close> rejects them.
\<close>

theorem modules_agree_counterexample:
  "compute_n [- 1, - 1] = Inr 1 \<and> rsa_compute_n [- 1, - 1] = Inl InvalidInput \<and>
   compute_phi [3, 0] ''euler'' = Inr (- 2) \<and> rsa_compute_phi [3, 0] ''euler'' = Inl InvalidInput"
  by code_simp

section \<open>Primes\<close>







section \<open>Fermat's little theorem\<close>







section \<open>Products of distinct primes\<close>







section \<open>The round trip\<close>







end
